theory Spec2Isabelle
  imports Main "HOL-Library.Sublist" "HOL-Library.Word"
begin

section \<open>Pod monitor dashboard: the reconciliation engine of main.go\<close>

text \<open>
  The development embeds the state reconciliation engine of the dashboard
  (\<^verbatim>\<open>updatePodStatuses\<close>, \<^verbatim>\<open>getPodInfo\<close>, \<^verbatim>\<open>monitorPods\<close>, \<^verbatim>\<open>handleProxy\<close> and the
  read side of \<^verbatim>\<open>handleIndex\<close>) as HOL functions. The cluster API, the clock, the
  network and the JSON decoder are collaborators outside the repository: they appear as
  oracles in a record \<open>world\<close>, and every request that leaves the process is written to a
  log so that "no network call" is a statement about that log.
\<close>

subsection \<open>Data model\<close>

record ProbeStatus =
  Started :: bool
  Live :: bool
  Ready :: bool

record PodInfo =
  PodName :: string
  PodIP :: string
  NodeHostname :: string
  ContainerAge :: "64 word"
  StartTime :: string
  ProbeStatus :: ProbeStatus
  StartupDelay :: "64 word"
  StartupReady :: string

text \<open>
  A \<^verbatim>\<open>time.Time\<close> is the instant the clock reported, in nanoseconds. The clock is a
  collaborator: nothing in the program or in this model keeps it from stepping back.
\<close>

type_synonym time = int

record PodStatusInfo =
  Name :: string
  IP :: string
  Node :: string
  Status :: string
  Info :: "PodInfo option"
  Error :: string
  LastCheck :: time
  ReplicaSetID :: string

text \<open>
  A pod as the cluster API lists it; only the four fields that \<^verbatim>\<open>updatePodStatuses\<close>
  reads (\<^verbatim>\<open>pod.Name\<close>, \<^verbatim>\<open>pod.Status.PodIP\<close>, \<^verbatim>\<open>pod.Spec.NodeName\<close>,
  \<^verbatim>\<open>pod.Status.Phase\<close>).
\<close>

record Pod =
  pod_Name :: string
  pod_PodIP :: string
  pod_NodeName :: string
  pod_Phase :: string

subsection \<open>\<^verbatim>\<open>strings.Split\<close> with a one-byte separator\<close>

text \<open>
  \<^verbatim>\<open>strings.IndexByte\<close>: the position of the first occurrence of the byte, if any.
\<close>

fun IndexByte :: "string \<Rightarrow> char \<Rightarrow> nat option" where
  "IndexByte [] c = None"
| "IndexByte (x # xs) c = (if x = c then Some 0 else map_option Suc (IndexByte xs c))"

text \<open>
  The standard library's loop: find the separator, cut the segment before it, continue
  behind it; the rest of the string is the last segment. The program only ever splits
  on the one-byte separator \<^verbatim>\<open>"-"\<close>.
\<close>

function Split :: "string \<Rightarrow> char \<Rightarrow> string list" where
  "Split s c =
     (case IndexByte s c of
        None \<Rightarrow> [s]
      | Some m \<Rightarrow> take m s # Split (drop (m + 1) s) c)"
  by pat_completeness auto
termination
proof (relation "measure (\<lambda>(s, c). length s)")
  show "wf (measure (\<lambda>(s, c). length s))"
    by simp
next
  fix s :: string and c :: char and m :: nat
  assume found: "IndexByte s c = Some m"
  have "\<And>k. IndexByte s c = Some k \<Longrightarrow> k < length s"
    by (induction s) (auto split: if_splits)
  then have "m < length s"
    using found by blast
  then show "((drop (m + 1) s, c), (s, c)) \<in> measure (\<lambda>(s, c). length s)"
    by simp
qed

declare Split.simps [simp del]

text \<open>\<^verbatim>\<open>strings.Join\<close>.\<close>

fun Join :: "string list \<Rightarrow> string \<Rightarrow> string" where
  "Join [] sep = []"
| "Join [p] sep = p"
| "Join (p # q # ps) sep = p @ sep @ Join (q # ps) sep"

text \<open>
  Lines 137 to 143 of \<^verbatim>\<open>updatePodStatuses\<close>: the ReplicaSet ID taken from the pod name.
\<close>

definition replicaSetID :: "string \<Rightarrow> string" where
  "replicaSetID name =
     (let parts = Split name (CHR ''-'')
      in if length parts \<ge> 2 then parts ! (length parts - 2) else '''')"

subsection \<open>The group tag as the specification words it\<close>

text \<open>
  Splitting on a delimiter, written by structural recursion: the segments of a string
  are the maximal runs between delimiters.
\<close>

fun segments :: "char \<Rightarrow> string \<Rightarrow> string list" where
  "segments c [] = [[]]"
| "segments c (x # xs) =
     (if x = c then [] # segments c xs
      else (case segments c xs of
              [] \<Rightarrow> [[x]]
            | p # ps \<Rightarrow> (x # p) # ps))"

text \<open>The second-to-last element when at least two exist.\<close>

fun second_to_last :: "'a list \<Rightarrow> 'a option" where
  "second_to_last [] = None"
| "second_to_last [x] = None"
| "second_to_last [x, y] = Some x"
| "second_to_last (x # y # z # zs) = second_to_last (y # z # zs)"

definition group_tag_spec :: "string \<Rightarrow> string" where
  "group_tag_spec identity =
     (case second_to_last (segments (CHR ''-'') identity) of
        None \<Rightarrow> ''''
      | Some seg \<Rightarrow> seg)"

subsection \<open>The collaborators outside the repository\<close>

text \<open>
  What \<^verbatim>\<open>http.Client\<close> hands back when a request completes: the status code, the
  bytes the body yields, and the error the body reader ends with, if it does not end
  with a clean end of file.
\<close>

record http_response =
  StatusCode :: int
  Body :: string
  BodyErr :: "string option"

text \<open>The anonymous struct \<^verbatim>\<open>req\<close> that \<^verbatim>\<open>handleProxy\<close> decodes the body into.\<close>

record proxy_req =
  req_URL :: string
  req_Method :: string

text \<open>
  The oracles. An error of a collaborator is \<open>Inl\<close> of its message. The reconciler
  makes one clock reading and at most one status request in each iteration of its
  loop, so both are indexed by the number of iterations executed so far. A request
  built by \<^verbatim>\<open>http.NewRequest\<close> is its method and its URL.
\<close>

record world =
  time_Now :: "nat \<Rightarrow> time"
  client_Get :: "nat \<Rightarrow> string \<Rightarrow> string + http_response"
  json_Unmarshal :: "string \<Rightarrow> string + PodInfo"
  json_Decode :: "string \<Rightarrow> string + proxy_req"
  http_NewRequest :: "string \<Rightarrow> string \<Rightarrow> string + string \<times> string"
  client_Do :: "string \<times> string \<Rightarrow> string + http_response"

subsection \<open>The dashboard state\<close>

text \<open>
  \<open>pods\<close> is the map \<^verbatim>\<open>Dashboard.pods\<close>. \<open>iter\<close> counts the loop iterations of the
  reconciler executed so far, \<open>wire\<close> lists the requests (method, URL) that have left
  the process, oldest first. The mutex is modelled by atomicity: each function below
  that writes \<open>pods\<close> does so in one locked section of the source.
\<close>

record monitor =
  pods :: "string \<rightharpoonup> PodStatusInfo"
  iter :: nat
  wire :: "(string \<times> string) list"

definition NewDashboard :: monitor where
  "NewDashboard = \<lparr>pods = Map.empty, iter = 0, wire = []\<rparr>"

subsection \<open>\<^verbatim>\<open>getPodInfo\<close>\<close>

datatype fetch_error =
    ConnectFailed string
  | UnexpectedStatus int
  | ReadFailed string
  | ParseFailed string

text \<open>The verb \<^verbatim>\<open>%d\<close> of \<^verbatim>\<open>fmt\<close>.\<close>

fun nat_digits :: "nat \<Rightarrow> string" where
  "nat_digits n =
     (if n < 10 then [''0123456789'' ! n]
      else nat_digits (n div 10) @ [''0123456789'' ! (n mod 10)])"

declare nat_digits.simps [simp del]

definition itoa :: "int \<Rightarrow> string" where
  "itoa n = (if n < 0 then CHR ''-'' # nat_digits (nat (- n)) else nat_digits (nat n))"

text \<open>\<^verbatim>\<open>err.Error()\<close> for the four \<^verbatim>\<open>fmt.Errorf\<close> calls of \<^verbatim>\<open>getPodInfo\<close>.\<close>

fun Error_string :: "fetch_error \<Rightarrow> string" where
  "Error_string (ConnectFailed e) = ''failed to connect: '' @ e"
| "Error_string (UnexpectedStatus n) = ''unexpected status code: '' @ itoa n"
| "Error_string (ReadFailed e) = ''failed to read response: '' @ e"
| "Error_string (ParseFailed e) = ''failed to parse JSON: '' @ e"

text \<open>
  The three kinds of fetch error that the specification names. A request that was
  answered but whose body could not be read to its end has not completed, so
  \<open>ReadFailed\<close> is a connectivity error.
\<close>

datatype fetch_error_kind = ConnectivityError | StatusError | DecodeError

fun error_kind :: "fetch_error \<Rightarrow> fetch_error_kind" where
  "error_kind (ConnectFailed e) = ConnectivityError"
| "error_kind (UnexpectedStatus n) = StatusError"
| "error_kind (ReadFailed e) = ConnectivityError"
| "error_kind (ParseFailed e) = DecodeError"

definition info_url :: "string \<Rightarrow> string" where
  "info_url podIP = ''http://'' @ podIP @ '':8080/api/info''"

text \<open>
  The function sends one GET (written to the log whether or not it completes) and
  returns the decoded structure or the first error it meets.
\<close>

definition getPodInfo :: "world \<Rightarrow> monitor \<Rightarrow> string \<Rightarrow> (fetch_error + PodInfo) \<times> monitor" where
  "getPodInfo w s podIP =
     (let url = info_url podIP;
          s' = s\<lparr>wire := wire s @ [(''GET'', url)]\<rparr>
      in case client_Get w (iter s) url of
           Inl err \<Rightarrow> (Inl (ConnectFailed err), s')
         | Inr resp \<Rightarrow>
             if StatusCode resp \<noteq> 200 then (Inl (UnexpectedStatus (StatusCode resp)), s')
             else (case BodyErr resp of
                     Some err \<Rightarrow> (Inl (ReadFailed err), s')
                   | None \<Rightarrow>
                       (case json_Unmarshal w (Body resp) of
                          Inl err \<Rightarrow> (Inl (ParseFailed err), s')
                        | Inr info \<Rightarrow> (Inr info, s'))))"

subsection \<open>\<^verbatim>\<open>updatePodStatuses\<close>\<close>

text \<open>
  One iteration of the loop over \<^verbatim>\<open>pods.Items\<close>, in its two parts. Lines 137 to 162
  build the record outside the lock: the ReplicaSet ID, the fields copied from the
  pod, the clock reading, and, only for a running pod with an IP, the status fetch.
\<close>

definition buildStatus :: "world \<Rightarrow> monitor \<Rightarrow> Pod \<Rightarrow> PodStatusInfo \<times> monitor" where
  "buildStatus w s pod =
     (let podStatus = \<lparr>Name = pod_Name pod, IP = pod_PodIP pod, Node = pod_NodeName pod,
                       Status = pod_Phase pod, Info = None, Error = '''',
                       LastCheck = time_Now w (iter s),
                       ReplicaSetID = replicaSetID (pod_Name pod)\<rparr>
      in if pod_Phase pod = ''Running'' \<and> pod_PodIP pod \<noteq> '''' then
           (case getPodInfo w s (pod_PodIP pod) of
              (Inl err, s') \<Rightarrow> (podStatus\<lparr>Error := Error_string err\<rparr>, s')
            | (Inr info, s') \<Rightarrow> (podStatus\<lparr>Info := Some info\<rparr>, s'))
         else (podStatus, s))"

text \<open>
  The whole iteration: the name is entered in \<open>currentPods\<close> (the Go
  \<^verbatim>\<open>map[string]bool\<close>, whose lookup of an absent key is \<^verbatim>\<open>false\<close>), the record is
  built, and lines 164 to 166 assign it to \<open>pods\<close> in a locked section.
\<close>

definition processPod ::
  "world \<Rightarrow> (string \<Rightarrow> bool) \<times> monitor \<Rightarrow> Pod \<Rightarrow> (string \<Rightarrow> bool) \<times> monitor" where
  "processPod w st pod =
     (let currentPods = (fst st)(pod_Name pod := True);
          (podStatus, s') = buildStatus w (snd st) pod
      in (currentPods,
          s'\<lparr>pods := (pods s')(pod_Name pod \<mapsto> podStatus), iter := Suc (iter s')\<rparr>))"

text \<open>
  The record that the iteration numbered \<open>n\<close> builds for a pod: the record depends on
  the state only through the iteration count.
\<close>

definition built :: "world \<Rightarrow> nat \<Rightarrow> Pod \<Rightarrow> PodStatusInfo" where
  "built w n pod = fst (buildStatus w \<lparr>pods = Map.empty, iter = n, wire = []\<rparr> pod)"

text \<open>The locked loop that deletes every key not seen in this cycle.\<close>

definition prune :: "(string \<Rightarrow> bool) \<Rightarrow> monitor \<Rightarrow> monitor" where
  "prune currentPods s =
     s\<lparr>pods := (\<lambda>name. if currentPods name then pods s name else None)\<rparr>"

text \<open>
  The cycle. \<open>listed\<close> is what the cluster API returned for the label selector:
  an error, or the items in the order the loop visits them.
\<close>

definition updatePodStatuses :: "world \<Rightarrow> string + Pod list \<Rightarrow> monitor \<Rightarrow> monitor" where
  "updatePodStatuses w listed s =
     (case listed of
        Inl err \<Rightarrow> s
      | Inr items \<Rightarrow>
          (let st = foldl (processPod w) (\<lambda>name. False, s) items
           in prune (fst st) (snd st)))"

text \<open>
  \<^verbatim>\<open>monitorPods\<close>: one cycle for each tick of the ticker that arrives before the
  context is done; each tick is paired with what the cluster API answers in its cycle.
\<close>

fun monitorPods :: "world \<Rightarrow> monitor \<Rightarrow> (string + Pod list) list \<Rightarrow> monitor" where
  "monitorPods w s [] = s"
| "monitorPods w s (listed # ticks) = monitorPods w (updatePodStatuses w listed s) ticks"

subsection \<open>Readers and the interleaving with a cycle\<close>

text \<open>
  The read-locked section of \<^verbatim>\<open>handleIndex\<close> and \<^verbatim>\<open>handleAPI\<close> copies what the map
  holds at that moment. A published record is never written again, so the copy is
  determined by the map.
\<close>

definition snapshot :: "monitor \<Rightarrow> (string \<rightharpoonup> PodStatusInfo)" where
  "snapshot s = pods s"

text \<open>
  Where the reconciler is between two of its locked sections: waiting for a tick, or
  in the cycle with the items still to visit and \<^verbatim>\<open>currentPods\<close> so far (with no item
  left, it is past the loop and before the pruning section).
\<close>

datatype pc = Idle | Merging "Pod list" "string \<Rightarrow> bool"

fun begin_cycle :: "string + Pod list \<Rightarrow> pc" where
  "begin_cycle (Inl err) = Idle"
| "begin_cycle (Inr items) = Merging items (\<lambda>name. False)"

text \<open>
  One step runs the reconciler up to the end of its next locked section. A reader
  takes the read lock between two steps.
\<close>

fun step :: "world \<Rightarrow> pc \<times> monitor \<Rightarrow> pc \<times> monitor" where
  "step w (Idle, s) = (Idle, s)"
| "step w (Merging [] currentPods, s) = (Idle, prune currentPods s)"
| "step w (Merging (pod # rest) currentPods, s) =
     (let st = processPod w (currentPods, s) pod in (Merging rest (fst st), snd st))"

text \<open>
  What a reader sees that takes the read lock after \<open>k\<close> steps of the cycle.
\<close>

definition observable ::
  "world \<Rightarrow> string + Pod list \<Rightarrow> monitor \<Rightarrow> nat \<Rightarrow> (string \<rightharpoonup> PodStatusInfo)" where
  "observable w listed s k = snapshot (snd ((step w ^^ k) (begin_cycle listed, s)))"

text \<open>
  Snapshot consistency as the specification words it: the snapshot that a reader takes
  after \<open>k\<close> steps of the cycle \<open>listed\<close>, which follows the completed cycles
  \<open>earlier\<close> of a run from the initial state, is the store as it was before the cycle
  began or the end state of a completed cycle of the run, this cycle included.
\<close>

definition untorn :: "world \<Rightarrow> (string + Pod list) list \<Rightarrow> string + Pod list \<Rightarrow> nat \<Rightarrow> bool" where
  "untorn w earlier listed k \<longleftrightarrow>
     (let s = monitorPods w NewDashboard earlier;
          seen = observable w listed s k
      in seen = snapshot s
         \<or> (\<exists>n. n \<le> Suc (length earlier)
               \<and> seen = snapshot (monitorPods w NewDashboard (take n (earlier @ [listed])))))"

subsection \<open>\<^verbatim>\<open>handleProxy\<close>\<close>

record Request =
  Method :: string
  RequestBody :: string

text \<open>
  What the handler has written to its \<^verbatim>\<open>http.ResponseWriter\<close> when it returns: the
  status code it passed to \<^verbatim>\<open>WriteHeader\<close> and the bytes it passed to \<^verbatim>\<open>Write\<close>.
\<close>

record ResponseWriter =
  written_StatusCode :: int
  written_Body :: string

text \<open>
  \<^verbatim>\<open>WriteHeader\<close> panics on a status code outside 100 to 999. The server recovers the
  panic of a handler and closes the connection; the caller receives no response.
\<close>

datatype panic = InvalidWriteHeaderCode int

text \<open>\<^verbatim>\<open>http.Error\<close> writes the status code and the message followed by a newline.\<close>

definition http_Error :: "string \<Rightarrow> int \<Rightarrow> ResponseWriter" where
  "http_Error msg code = \<lparr>written_StatusCode = code, written_Body = msg @ [CHR 0x0A]\<rparr>"

text \<open>
  The handler. On the last branch \<^verbatim>\<open>w.WriteHeader(resp.StatusCode)\<close> comes first and
  may panic; then \<^verbatim>\<open>io.Copy\<close> writes the bytes that the remote body yields, and the
  error that the body may end with (\<open>BodyErr\<close>) is dropped with the result of
  \<^verbatim>\<open>io.Copy\<close>.
\<close>

definition handleProxy ::
  "world \<Rightarrow> monitor \<Rightarrow> Request \<Rightarrow> (panic + ResponseWriter) \<times> monitor" where
  "handleProxy w s r =
     (if Method r \<noteq> ''POST'' then (Inr (http_Error ''Method not allowed'' 405), s)
      else case json_Decode w (RequestBody r) of
             Inl err \<Rightarrow> (Inr (http_Error ''Invalid request body'' 400), s)
           | Inr req \<Rightarrow>
               (case http_NewRequest w (req_Method req) (req_URL req) of
                  Inl err \<Rightarrow> (Inr (http_Error ''Failed to create request'' 500), s)
                | Inr proxyReq \<Rightarrow>
                    (let s' = s\<lparr>wire := wire s @ [proxyReq]\<rparr>
                     in case client_Do w proxyReq of
                          Inl err \<Rightarrow>
                            (Inr (http_Error (''Failed to call pod API: '' @ err) 500), s')
                        | Inr resp \<Rightarrow>
                            if StatusCode resp < 100 \<or> StatusCode resp > 999
                            then (Inl (InvalidWriteHeaderCode (StatusCode resp)), s')
                            else (Inr \<lparr>written_StatusCode = StatusCode resp,
                                       written_Body = Body resp\<rparr>, s'))))"

subsection \<open>The action forwarder and the time stamps as the specification words them\<close>

text \<open>The caller received a response with the given status code.\<close>

definition answered :: "int \<Rightarrow> panic + ResponseWriter \<Rightarrow> bool" where
  "answered code res = (case res of Inl p \<Rightarrow> False | Inr rw \<Rightarrow> written_StatusCode rw = code)"

text \<open>The caller received a server error: a response with a status code from 500 to 599.\<close>

definition server_error :: "panic + ResponseWriter \<Rightarrow> bool" where
  "server_error res =
     (case res of
        Inl p \<Rightarrow> False
      | Inr rw \<Rightarrow> 500 \<le> written_StatusCode rw \<and> written_StatusCode rw < 600)"

text \<open>
  The four clauses of the specification for one request: a method other than POST is
  answered with method-not-allowed; a body that does not decode is answered with
  bad-request and nothing is sent; a relayed call that fails, before or after the
  remote response has begun, is answered with a server error; a relayed call that
  succeeds has its status code and body copied back unmodified. The specification
  says nothing here about a request that cannot be built.
\<close>

definition forwarded_as_specified :: "world \<Rightarrow> monitor \<Rightarrow> Request \<Rightarrow> bool" where
  "forwarded_as_specified w s r =
     (let res = fst (handleProxy w s r); s' = snd (handleProxy w s r)
      in if Method r \<noteq> ''POST'' then answered 405 res
         else case json_Decode w (RequestBody r) of
                Inl err \<Rightarrow> answered 400 res \<and> wire s' = wire s
              | Inr req \<Rightarrow>
                  (case http_NewRequest w (req_Method req) (req_URL req) of
                     Inl err \<Rightarrow> True
                   | Inr proxyReq \<Rightarrow>
                       (case client_Do w proxyReq of
                          Inl err \<Rightarrow> server_error res
                        | Inr resp \<Rightarrow>
                            (case BodyErr resp of
                               Some err \<Rightarrow> server_error res
                             | None \<Rightarrow>
                                 res = Inr \<lparr>written_StatusCode = StatusCode resp,
                                            written_Body = Body resp\<rparr>))))"

text \<open>
  The time stamps of an identity never decrease: whenever a name holds a record after
  the cycles \<open>ticks\<close> of a run from the initial state and again after the further
  cycles \<open>further\<close>, the later \<open>LastCheck\<close> is no earlier than the earlier one.
\<close>

definition stamps_never_decrease ::
  "world \<Rightarrow> (string + Pod list) list \<Rightarrow> (string + Pod list) list \<Rightarrow> bool" where
  "stamps_never_decrease w ticks further \<longleftrightarrow>
     (\<forall>name r r'.
        pods (monitorPods w NewDashboard ticks) name = Some r
        \<and> pods (monitorPods w (monitorPods w NewDashboard ticks) further) name = Some r'
        \<longrightarrow> LastCheck r \<le> LastCheck r')"

subsection \<open>Example inputs\<close>

text \<open>
  Concrete pods, clocks and networks on which the theorems below are instantiated.
\<close>

definition pod_web :: Pod where
  "pod_web = \<lparr>pod_Name = ''web-7f8c9d-abcde'', pod_PodIP = ''10.0.0.5'',
              pod_NodeName = ''node-1'', pod_Phase = ''Running''\<rparr>"

definition pod_api :: Pod where
  "pod_api = \<lparr>pod_Name = ''api-5d4c-x1'', pod_PodIP = ''10.0.0.6'',
              pod_NodeName = ''node-2'', pod_Phase = ''Running''\<rparr>"

definition pod_pending :: Pod where
  "pod_pending = \<lparr>pod_Name = ''single'', pod_PodIP = '''',
                  pod_NodeName = '''', pod_Phase = ''Pending''\<rparr>"

definition pod_old :: Pod where
  "pod_old = \<lparr>pod_Name = ''old-1'', pod_PodIP = '''',
              pod_NodeName = ''node-2'', pod_Phase = ''Pending''\<rparr>"

definition info_web :: PodInfo where
  "info_web = \<lparr>PodName = ''web-7f8c9d-abcde'', PodIP = ''10.0.0.5'', NodeHostname = ''node-1'',
               ContainerAge = 5, StartTime = ''2024-01-01T00:00:00Z'',
               ProbeStatus = \<lparr>Started = True, Live = True, Ready = False\<rparr>,
               StartupDelay = 0, StartupReady = ''''\<rparr>"

text \<open>A world in which every request fails and no body decodes.\<close>

definition down_world :: world where
  "down_world =
     \<lparr>time_Now = (\<lambda>n. int n),
      client_Get = (\<lambda>n url. Inl ''connection refused''),
      json_Unmarshal = (\<lambda>body. Inl ''unexpected end of JSON input''),
      json_Decode = (\<lambda>body. Inl ''unexpected end of JSON input''),
      http_NewRequest = (\<lambda>method url. Inl ''invalid method''),
      client_Do = (\<lambda>req. Inl ''connection refused'')\<rparr>"

text \<open>
  A world in which every status request is answered with 200 and a body that decodes,
  every proxy body decodes to a POST for the readiness probe of \<open>pod_web\<close>, and the
  relayed call is answered with 200.
\<close>

definition up_world :: world where
  "up_world =
     \<lparr>time_Now = (\<lambda>n. int n),
      client_Get = (\<lambda>n url. Inr \<lparr>StatusCode = 200, Body = ''{}'', BodyErr = None\<rparr>),
      json_Unmarshal = (\<lambda>body. Inr info_web),
      json_Decode = (\<lambda>body. Inr \<lparr>req_URL = ''http://10.0.0.5:8080/api/probes/readiness/fail'',
                                    req_Method = ''POST''\<rparr>),
      http_NewRequest = (\<lambda>method url. Inr (method, url)),
      client_Do = (\<lambda>req. Inr \<lparr>StatusCode = 200, Body = ''done'', BodyErr = None\<rparr>)\<rparr>"

text \<open>
  The world of \<open>up_world\<close>, except that the relayed call times out while the body is
  streamed, after the status line and one byte of the body have arrived.
\<close>

definition timeout_world :: world where
  "timeout_world =
     up_world\<lparr>client_Do := \<lambda>req. Inr \<lparr>StatusCode = 200, Body = ''{'',
                                         BodyErr = Some ''context deadline exceeded''\<rparr>\<rparr>"

text \<open>
  The world of \<open>up_world\<close>, except that the remote answers the relayed call with the
  status line \<^verbatim>\<open>HTTP/1.1 007\<close>, which the client accepts as status code 7.
\<close>

definition odd_world :: world where
  "odd_world =
     up_world\<lparr>client_Do := \<lambda>req. Inr \<lparr>StatusCode = 7, Body = ''done'', BodyErr = None\<rparr>\<rparr>"

text \<open>The world of \<open>down_world\<close> with a clock that steps back at every reading.\<close>

definition back_world :: world where
  "back_world = down_world\<lparr>time_Now := \<lambda>n. - int n\<rparr>"

section \<open>Properties\<close>

subsection \<open>The group tag\<close>

lemma segments_no_sep:
  "IndexByte s c = None \<Longrightarrow> segments c s = [s]"
  by (induction s) (auto split: if_splits)

lemma segments_at_sep:
  "IndexByte s c = Some m \<Longrightarrow> segments c s = take m s # segments c (drop (m + 1) s)"
  by (induction s arbitrary: m) (auto split: if_splits)

lemma Split_segments: "Split s c = segments c s"
proof (induction s c rule: Split.induct)
  case (1 s c)
  show ?case
  proof (cases "IndexByte s c")
    case None
    then show ?thesis
      by (simp add: Split.simps segments_no_sep)
  next
    case (Some m)
    with 1 show ?thesis
      by (simp add: Split.simps segments_at_sep)
  qed
qed

lemma second_to_last_nth:
  "second_to_last xs = (if 2 \<le> length xs then Some (xs ! (length xs - 2)) else None)"
  by (induction xs rule: second_to_last.induct) (auto simp: nth_Cons split: nat.splits)

lemma Join_push: "Join ((x # p) # ps) sep = x # Join (p # ps) sep"
  by (cases ps) simp_all

lemma Join_segments: "Join (segments c s) [c] = s"
  by (induction s) (auto simp: Join_push split: list.splits)

lemma segments_free: "p \<in> set (segments c s) \<Longrightarrow> c \<notin> set p"
  by (induction s arbitrary: p) (auto split: list.splits if_splits)

text \<open>
  Claim C3. The ReplicaSet ID that the loop derives from a pod name is the group tag as
  the specification words it: the name is split on \<^verbatim>\<open>"-"\<close> (joining the segments with the
  delimiter gives the name back, and no segment contains the delimiter), and the tag
  is the second-to-last segment when there are at least two segments and the empty
  string otherwise. The name \<^verbatim>\<open>web-7f8c9d-abcde\<close> yields \<^verbatim>\<open>7f8c9d\<close> and \<^verbatim>\<open>single\<close> yields the
  empty tag.
\<close>

theorem replicaSetID_group_tag:
  "replicaSetID identity = group_tag_spec identity
   \<and> Join (Split identity (CHR ''-'')) ''-'' = identity
   \<and> (\<forall>seg \<in> set (Split identity (CHR ''-'')). CHR ''-'' \<notin> set seg)
   \<and> replicaSetID ''web-7f8c9d-abcde'' = ''7f8c9d''
   \<and> replicaSetID ''single'' = ''''"
proof -
  have "replicaSetID identity = group_tag_spec identity"
    by (simp add: replicaSetID_def group_tag_spec_def Split_segments second_to_last_nth Let_def)
  moreover have "Join (Split identity (CHR ''-'')) ''-'' = identity"
    by (simp add: Split_segments Join_segments)
  moreover have "\<forall>seg \<in> set (Split identity (CHR ''-'')). CHR ''-'' \<notin> set seg"
    by (simp add: Split_segments segments_free)
  moreover have "replicaSetID ''web-7f8c9d-abcde'' = ''7f8c9d''"
    by (simp add: replicaSetID_def Split.simps Let_def)
  moreover have "replicaSetID ''single'' = ''''"
    by (simp add: replicaSetID_def Split.simps Let_def)
  ultimately show ?thesis
    by blast
qed

theorem replicaSetID_group_tag_witness:
  "''7f8c9d'' \<in> set (Split ''web-7f8c9d-abcde'' (CHR ''-''))
   \<and> CHR ''-'' \<notin> set ''7f8c9d''
   \<and> group_tag_spec ''web-7f8c9d-abcde'' = ''7f8c9d''
   \<and> group_tag_spec ''a-b'' = ''a''"
proof -
  have mem: "''7f8c9d'' \<in> set (Split ''web-7f8c9d-abcde'' (CHR ''-''))"
    by (simp add: Split.simps)
  have "replicaSetID ''a-b'' = ''a''"
    by (simp add: replicaSetID_def Split.simps Let_def)
  with mem replicaSetID_group_tag [of "''web-7f8c9d-abcde''"] replicaSetID_group_tag [of "''a-b''"]
  show ?thesis
    by (metis)
qed

subsection \<open>The reconciliation cycle\<close>

lemma getPodInfo_state:
  "snd (getPodInfo w s ip) = s\<lparr>wire := wire s @ [(''GET'', info_url ip)]\<rparr>"
  by (simp add: getPodInfo_def Let_def split: sum.splits option.splits)

lemma getPodInfo_iter_only:
  "iter s = iter t \<Longrightarrow> fst (getPodInfo w s ip) = fst (getPodInfo w t ip)"
  by (simp add: getPodInfo_def Let_def split: sum.splits option.splits)

lemma buildStatus_state:
  "snd (buildStatus w s pod) =
     (if pod_Phase pod = ''Running'' \<and> pod_PodIP pod \<noteq> ''''
      then s\<lparr>wire := wire s @ [(''GET'', info_url (pod_PodIP pod))]\<rparr> else s)"
proof -
  have "snd (case getPodInfo w s ip of
               (Inl err, s') \<Rightarrow> (f err, s') | (Inr info, s') \<Rightarrow> (g info, s'))
        = snd (getPodInfo w s ip)" for f g :: "_ \<Rightarrow> PodStatusInfo" and ip
    by (cases "getPodInfo w s ip") (simp split: sum.splits)
  then show ?thesis
    by (simp add: buildStatus_def Let_def getPodInfo_state)
qed

lemma buildStatus_built: "fst (buildStatus w s pod) = built w (iter s) pod"
proof -
  let ?t = "\<lparr>pods = Map.empty, iter = iter s, wire = []\<rparr>"
  have "fst (getPodInfo w s ip) = fst (getPodInfo w ?t ip)" for ip
    by (rule getPodInfo_iter_only) simp
  then have "fst (getPodInfo w s (pod_PodIP pod)) = fst (getPodInfo w ?t (pod_PodIP pod))" .
  then show ?thesis
    unfolding built_def buildStatus_def Let_def
    by (cases "getPodInfo w s (pod_PodIP pod)"; cases "getPodInfo w ?t (pod_PodIP pod)")
       (auto split: sum.splits)
qed

lemma processPod_eq:
  "processPod w (cur, s) pod =
     (cur(pod_Name pod := True),
      (snd (buildStatus w s pod))\<lparr>pods := (pods s)(pod_Name pod \<mapsto> built w (iter s) pod),
                                  iter := Suc (iter s)\<rparr>)"
  by (cases "buildStatus w s pod")
     (use buildStatus_state [of w s pod] buildStatus_built [of w s pod] in
       \<open>auto simp: processPod_def Let_def\<close>)

lemma loop_currentPods:
  "fst (foldl (processPod w) (cur, s) items) = (\<lambda>name. cur name \<or> name \<in> pod_Name ` set items)"
proof (induction items rule: rev_induct)
  case Nil
  show ?case by simp
next
  case (snoc pod items)
  obtain cur' s' where st: "foldl (processPod w) (cur, s) items = (cur', s')"
    by (cases "foldl (processPod w) (cur, s) items")
  with snoc have "cur' = (\<lambda>name. cur name \<or> name \<in> pod_Name ` set items)"
    by simp
  with st show ?case
    by (auto simp: processPod_eq fun_eq_iff)
qed

lemma loop_iter:
  "iter (snd (foldl (processPod w) (cur, s) items)) = iter s + length items"
proof (induction items rule: rev_induct)
  case Nil
  show ?case by simp
next
  case (snoc pod items)
  obtain cur' s' where st: "foldl (processPod w) (cur, s) items = (cur', s')"
    by (cases "foldl (processPod w) (cur, s) items")
  with snoc show ?case
    by (simp add: processPod_eq)
qed

lemma loop_wire:
  "wire (snd (foldl (processPod w) (cur, s) items)) =
     wire s @ map (\<lambda>pod. (''GET'', info_url (pod_PodIP pod)))
                (filter (\<lambda>pod. pod_Phase pod = ''Running'' \<and> pod_PodIP pod \<noteq> '''') items)"
proof (induction items rule: rev_induct)
  case Nil
  show ?case by simp
next
  case (snoc pod items)
  obtain cur' s' where st: "foldl (processPod w) (cur, s) items = (cur', s')"
    by (cases "foldl (processPod w) (cur, s) items")
  with snoc show ?case
    by (simp add: processPod_eq buildStatus_state)
qed

lemma loop_untouched:
  "name \<notin> pod_Name ` set items \<Longrightarrow>
   pods (snd (foldl (processPod w) (cur, s) items)) name = pods s name"
proof (induction items rule: rev_induct)
  case Nil
  show ?case by simp
next
  case (snoc pod items)
  obtain cur' s' where st: "foldl (processPod w) (cur, s) items = (cur', s')"
    by (cases "foldl (processPod w) (cur, s) items")
  with snoc show ?case
    by (auto simp: processPod_eq)
qed

lemma loop_upserted:
  "name \<in> pod_Name ` set items \<Longrightarrow>
   \<exists>i<length items. pod_Name (items ! i) = name
      \<and> pods (snd (foldl (processPod w) (cur, s) items)) name
          = Some (built w (iter s + i) (items ! i))"
proof (induction items rule: rev_induct)
  case Nil
  then show ?case by simp
next
  case (snoc pod items)
  obtain cur' s' where st: "foldl (processPod w) (cur, s) items = (cur', s')"
    by (cases "foldl (processPod w) (cur, s) items")
  have it: "iter s' = iter s + length items"
    using loop_iter [of w cur s items] st by simp
  show ?case
  proof (cases "pod_Name pod = name")
    case True
    have "pods (snd (foldl (processPod w) (cur, s) (items @ [pod]))) name
            = Some (built w (iter s + length items) pod)"
      using st it True by (simp add: processPod_eq)
    with True show ?thesis
      by (intro exI [of _ "length items"]) simp
  next
    case False
    with snoc.prems have "name \<in> pod_Name ` set items"
      by auto
    with snoc.IH obtain i where i: "i < length items" "pod_Name (items ! i) = name"
      "pods (snd (foldl (processPod w) (cur, s) items)) name
         = Some (built w (iter s + i) (items ! i))"
      by blast
    with st False
    have "pods (snd (foldl (processPod w) (cur, s) (items @ [pod]))) name
            = Some (built w (iter s + i) (items ! i))"
      by (simp add: processPod_eq)
    with i show ?thesis
      by (intro exI [of _ i]) (simp add: nth_append)
  qed
qed

lemma cycle_pods:
  "pods (updatePodStatuses w (Inr items) s) name =
     (if name \<in> pod_Name ` set items
      then pods (snd (foldl (processPod w) (\<lambda>name. False, s) items)) name else None)"
  by (simp add: updatePodStatuses_def Let_def prune_def loop_currentPods)

lemma cycle_dom: "dom (pods (updatePodStatuses w (Inr items) s)) = pod_Name ` set items"
proof (rule set_eqI)
  fix name
  show "name \<in> dom (pods (updatePodStatuses w (Inr items) s)) \<longleftrightarrow> name \<in> pod_Name ` set items"
  proof (cases "name \<in> pod_Name ` set items")
    case True
    with loop_upserted [OF True, of w "\<lambda>name. False" s] show ?thesis
      by (auto simp: cycle_pods dom_def)
  next
    case False
    then show ?thesis
      by (simp add: cycle_pods dom_def)
  qed
qed

text \<open>
  Claim C1. When discovery succeeds, the identities in the store at the end of the
  cycle are exactly the names that discovery returned, whatever the store held before:
  every returned name holds a record built in this cycle (by the iteration of one of
  the items with that name), and every other name is absent.
\<close>

theorem prune_invariant:
  "dom (pods (updatePodStatuses w (Inr items) s)) = pod_Name ` set items
   \<and> (\<forall>name \<in> pod_Name ` set items.
        \<exists>i<length items. pod_Name (items ! i) = name
          \<and> pods (updatePodStatuses w (Inr items) s) name
              = Some (built w (iter s + i) (items ! i)))
   \<and> (\<forall>name. name \<notin> pod_Name ` set items
        \<longrightarrow> pods (updatePodStatuses w (Inr items) s) name = None)"
proof -
  have up: "\<forall>name \<in> pod_Name ` set items.
        \<exists>i<length items. pod_Name (items ! i) = name
          \<and> pods (updatePodStatuses w (Inr items) s) name
              = Some (built w (iter s + i) (items ! i))"
    using loop_upserted [of _ items w "\<lambda>name. False" s] by (simp add: cycle_pods)
  have gone: "\<forall>name. name \<notin> pod_Name ` set items
        \<longrightarrow> pods (updatePodStatuses w (Inr items) s) name = None"
    by (simp add: cycle_pods)
  have "dom (pods (updatePodStatuses w (Inr items) s)) = pod_Name ` set items"
  proof (rule set_eqI)
    fix name
    show "name \<in> dom (pods (updatePodStatuses w (Inr items) s)) \<longleftrightarrow> name \<in> pod_Name ` set items"
      using up gone by (cases "name \<in> pod_Name ` set items") (auto simp: dom_def)
  qed
  with up gone show ?thesis
    by blast
qed

lemma built_fields:
  "Name (built w n pod) = pod_Name pod" "IP (built w n pod) = pod_PodIP pod"
  "Node (built w n pod) = pod_NodeName pod" "Status (built w n pod) = pod_Phase pod"
  "LastCheck (built w n pod) = time_Now w n"
  "ReplicaSetID (built w n pod) = replicaSetID (pod_Name pod)"
  by (simp_all add: built_def buildStatus_def Let_def split: prod.splits sum.splits)

lemma built_exclusive: "Info (built w n pod) = None \<or> Error (built w n pod) = ''''"
  by (simp add: built_def buildStatus_def Let_def split: prod.splits sum.splits)

lemma built_not_fetched:
  "pod_Phase pod \<noteq> ''Running'' \<or> pod_PodIP pod = '''' \<Longrightarrow>
   Info (built w n pod) = None \<and> Error (built w n pod) = ''''"
  by (auto simp: built_def buildStatus_def Let_def)

lemma cycle_wire:
  "wire (updatePodStatuses w (Inr items) s) =
     wire s @ map (\<lambda>pod. (''GET'', info_url (pod_PodIP pod)))
                (filter (\<lambda>pod. pod_Phase pod = ''Running'' \<and> pod_PodIP pod \<noteq> '''') items)"
  by (simp add: updatePodStatuses_def Let_def prune_def loop_wire)

lemma cycle_record_built:
  assumes "pods (updatePodStatuses w (Inr items) s) name = Some r"
  shows "\<exists>i<length items. r = built w (iter s + i) (items ! i)"
proof -
  from assms have "name \<in> pod_Name ` set items"
    by (simp add: cycle_pods split: if_splits)
  with loop_upserted [of name items w "\<lambda>name. False" s] assms show ?thesis
    by (auto simp: cycle_pods)
qed

text \<open>
  Claim C2. No record that a cycle stores has both \<open>Info\<close> and a non-empty \<open>Error\<close>,
  and a record whose phase is not \<^verbatim>\<open>Running\<close> or whose address is empty has neither. The
  same holds for the record each iteration builds; for a pod that is not running or
  has no address the iteration leaves the state, and so the request log, as it was (no
  fetch is attempted). Over the whole cycle the requests sent are exactly one GET for
  each running pod with an address, in the order of the items.
\<close>

theorem status_exclusive:
  "(\<forall>name r. pods (updatePodStatuses w (Inr items) s) name = Some r \<longrightarrow>
      \<not> (Info r \<noteq> None \<and> Error r \<noteq> '''')
      \<and> (Status r \<noteq> ''Running'' \<or> IP r = '''' \<longrightarrow> Info r = None \<and> Error r = ''''))
   \<and> \<not> (Info (fst (buildStatus w s pod)) \<noteq> None \<and> Error (fst (buildStatus w s pod)) \<noteq> '''')
   \<and> (pod_Phase pod \<noteq> ''Running'' \<or> pod_PodIP pod = '''' \<longrightarrow>
        snd (buildStatus w s pod) = s
        \<and> Info (fst (buildStatus w s pod)) = None \<and> Error (fst (buildStatus w s pod)) = '''')
   \<and> wire (updatePodStatuses w (Inr items) s) =
        wire s @ map (\<lambda>pod. (''GET'', info_url (pod_PodIP pod)))
                   (filter (\<lambda>pod. pod_Phase pod = ''Running'' \<and> pod_PodIP pod \<noteq> '''') items)"
proof -
  have stored: "\<not> (Info r \<noteq> None \<and> Error r \<noteq> '''')
      \<and> (Status r \<noteq> ''Running'' \<or> IP r = '''' \<longrightarrow> Info r = None \<and> Error r = '''')"
    if "pods (updatePodStatuses w (Inr items) s) name = Some r" for name r
  proof -
    from cycle_record_built [OF that] obtain i where r: "r = built w (iter s + i) (items ! i)"
      by blast
    show ?thesis
      unfolding r using built_exclusive [of w "iter s + i" "items ! i"]
        built_not_fetched [of "items ! i" w "iter s + i"]
      by (auto simp: built_fields)
  qed
  have one: "\<not> (Info (fst (buildStatus w s pod)) \<noteq> None \<and> Error (fst (buildStatus w s pod)) \<noteq> '''')"
    using built_exclusive [of w "iter s" pod] by (auto simp: buildStatus_built)
  have idle: "pod_Phase pod \<noteq> ''Running'' \<or> pod_PodIP pod = '''' \<longrightarrow>
        snd (buildStatus w s pod) = s
        \<and> Info (fst (buildStatus w s pod)) = None \<and> Error (fst (buildStatus w s pod)) = ''''"
    using built_not_fetched [of pod w "iter s"] by (auto simp: buildStatus_built buildStatus_state)
  from stored one idle cycle_wire [of w items s] show ?thesis
    by blast
qed

text \<open>
  Claim C7. A cycle whose discovery query fails returns the state it was given: the
  store after the cycle is the store before it, every reader during the cycle sees the
  store as it was, and a run of cycles is the run without the failed one.
\<close>

theorem discovery_failure_no_mutation:
  "updatePodStatuses w (Inl err) s = s
   \<and> (\<forall>k. observable w (Inl err) s k = snapshot s)
   \<and> monitorPods w s (ticks @ Inl err # later) = monitorPods w s (ticks @ later)"
proof -
  have same: "updatePodStatuses w (Inl err) s = s" for s
    by (simp add: updatePodStatuses_def)
  have "(step w ^^ k) (Idle, s) = (Idle, s)" for k
    by (induction k) simp_all
  then have seen: "\<forall>k. observable w (Inl err) s k = snapshot s"
    by (simp add: observable_def)
  have "monitorPods w s (ticks @ Inl err # later) = monitorPods w s (ticks @ later)"
    by (induction ticks arbitrary: s) (simp_all add: same)
  with same seen show ?thesis
    by blast
qed

lemmas eval_cycle =
  updatePodStatuses_def processPod_def buildStatus_def getPodInfo_def prune_def Let_def
  NewDashboard_def replicaSetID_def Split.simps info_url_def

theorem prune_invariant_witness:
  "pods (updatePodStatuses down_world (Inr [pod_old]) NewDashboard) ''old-1'' \<noteq> None
   \<and> ''single'' \<in> pod_Name ` set [pod_web, pod_pending]
   \<and> ''old-1'' \<notin> pod_Name ` set [pod_web, pod_pending]
   \<and> dom (pods (updatePodStatuses down_world (Inr [pod_web, pod_pending])
                  (updatePodStatuses down_world (Inr [pod_old]) NewDashboard)))
       = {''web-7f8c9d-abcde'', ''single''}
   \<and> pods (updatePodStatuses down_world (Inr [pod_web, pod_pending])
             (updatePodStatuses down_world (Inr [pod_old]) NewDashboard)) ''old-1'' = None"
proof -
  have stale: "pods (updatePodStatuses down_world (Inr [pod_old]) NewDashboard) ''old-1'' \<noteq> None"
    by (simp add: eval_cycle pod_old_def down_world_def)
  have names: "pod_Name ` set [pod_web, pod_pending] = {''web-7f8c9d-abcde'', ''single''}"
    by (simp add: pod_web_def pod_pending_def)
  show ?thesis
    using stale prune_invariant [of down_world "[pod_web, pod_pending]"
        "updatePodStatuses down_world (Inr [pod_old]) NewDashboard"]
    unfolding names by simp
qed

theorem status_exclusive_witness:
  "pods (updatePodStatuses down_world (Inr [pod_web, pod_pending]) NewDashboard) ''web-7f8c9d-abcde''
     = Some \<lparr>Name = ''web-7f8c9d-abcde'', IP = ''10.0.0.5'', Node = ''node-1'',
             Status = ''Running'', Info = None,
             Error = ''failed to connect: connection refused'', LastCheck = 0,
             ReplicaSetID = ''7f8c9d''\<rparr>
   \<and> pods (updatePodStatuses up_world (Inr [pod_web, pod_pending]) NewDashboard) ''web-7f8c9d-abcde''
     = Some \<lparr>Name = ''web-7f8c9d-abcde'', IP = ''10.0.0.5'', Node = ''node-1'',
             Status = ''Running'', Info = Some info_web, Error = '''', LastCheck = 0,
             ReplicaSetID = ''7f8c9d''\<rparr>
   \<and> pod_Phase pod_pending \<noteq> ''Running''
   \<and> snd (buildStatus up_world NewDashboard pod_pending) = NewDashboard
   \<and> Info (fst (buildStatus up_world NewDashboard pod_pending)) = None
   \<and> Error (fst (buildStatus up_world NewDashboard pod_pending)) = ''''
   \<and> wire (updatePodStatuses up_world (Inr [pod_web, pod_pending]) NewDashboard)
       = [(''GET'', ''http://10.0.0.5:8080/api/info'')]"
proof -
  have down: "pods (updatePodStatuses down_world (Inr [pod_web, pod_pending]) NewDashboard)
       ''web-7f8c9d-abcde''
     = Some \<lparr>Name = ''web-7f8c9d-abcde'', IP = ''10.0.0.5'', Node = ''node-1'',
             Status = ''Running'', Info = None,
             Error = ''failed to connect: connection refused'', LastCheck = 0,
             ReplicaSetID = ''7f8c9d''\<rparr>"
    by (simp add: eval_cycle pod_web_def pod_pending_def down_world_def)
  have up: "pods (updatePodStatuses up_world (Inr [pod_web, pod_pending]) NewDashboard)
       ''web-7f8c9d-abcde''
     = Some \<lparr>Name = ''web-7f8c9d-abcde'', IP = ''10.0.0.5'', Node = ''node-1'',
             Status = ''Running'', Info = Some info_web, Error = '''', LastCheck = 0,
             ReplicaSetID = ''7f8c9d''\<rparr>"
    by (simp add: eval_cycle pod_web_def pod_pending_def up_world_def)
  have phase: "pod_Phase pod_pending \<noteq> ''Running''"
    by (simp add: pod_pending_def)
  have sent: "wire NewDashboard @ map (\<lambda>pod. (''GET'', info_url (pod_PodIP pod)))
                (filter (\<lambda>pod. pod_Phase pod = ''Running'' \<and> pod_PodIP pod \<noteq> '''')
                   [pod_web, pod_pending])
              = [(''GET'', ''http://10.0.0.5:8080/api/info'')]"
    by (simp add: NewDashboard_def pod_web_def pod_pending_def info_url_def)
  show ?thesis
    using down up phase
      status_exclusive [of up_world "[pod_web, pod_pending]" NewDashboard pod_pending]
    unfolding sent by simp
qed

theorem discovery_failure_no_mutation_witness:
  "updatePodStatuses down_world (Inl ''forbidden'')
      (updatePodStatuses down_world (Inr [pod_old]) NewDashboard)
     = updatePodStatuses down_world (Inr [pod_old]) NewDashboard
   \<and> monitorPods down_world NewDashboard [Inr [pod_old], Inl ''forbidden'']
     = monitorPods down_world NewDashboard [Inr [pod_old]]"
  using discovery_failure_no_mutation [of down_world "''forbidden''"
      "updatePodStatuses down_world (Inr [pod_old]) NewDashboard"]
    discovery_failure_no_mutation [of down_world "''forbidden''" NewDashboard
      "[Inr [pod_old]]" "[]"]
  by simp

subsection \<open>The status fetch and the proxy\<close>

text \<open>
  Claim C6. \<open>getPodInfo\<close> returns a decoded structure exactly when the request
  completes with status 200, the body is read to its end and decodes. Otherwise it
  returns one error, that of the first check that fails: a connectivity error when the
  request is not answered, a status error when the status is not 200, a connectivity
  error when the body cannot be read to its end, and a decode error when the body does
  not decode. In every case exactly one GET for the status URL has been sent.
\<close>

theorem getPodInfo_outcomes:
  "(fst (getPodInfo w s podIP) = Inr info \<longleftrightarrow>
      (\<exists>resp. client_Get w (iter s) (info_url podIP) = Inr resp \<and> StatusCode resp = 200
          \<and> BodyErr resp = None \<and> json_Unmarshal w (Body resp) = Inr info))
   \<and> (client_Get w (iter s) (info_url podIP) = Inl e \<longrightarrow>
        fst (getPodInfo w s podIP) = Inl (ConnectFailed e)
        \<and> error_kind (ConnectFailed e) = ConnectivityError)
   \<and> (client_Get w (iter s) (info_url podIP) = Inr resp \<and> StatusCode resp \<noteq> 200 \<longrightarrow>
        fst (getPodInfo w s podIP) = Inl (UnexpectedStatus (StatusCode resp))
        \<and> error_kind (UnexpectedStatus (StatusCode resp)) = StatusError)
   \<and> (client_Get w (iter s) (info_url podIP) = Inr resp \<and> StatusCode resp = 200
        \<and> BodyErr resp = Some e \<longrightarrow>
        fst (getPodInfo w s podIP) = Inl (ReadFailed e)
        \<and> error_kind (ReadFailed e) = ConnectivityError)
   \<and> (client_Get w (iter s) (info_url podIP) = Inr resp \<and> StatusCode resp = 200
        \<and> BodyErr resp = None \<and> json_Unmarshal w (Body resp) = Inl e \<longrightarrow>
        fst (getPodInfo w s podIP) = Inl (ParseFailed e)
        \<and> error_kind (ParseFailed e) = DecodeError)
   \<and> snd (getPodInfo w s podIP) = s\<lparr>wire := wire s @ [(''GET'', info_url podIP)]\<rparr>"
  by (auto simp: getPodInfo_def Let_def split: sum.splits option.splits)

theorem getPodInfo_outcomes_witness:
  "fst (getPodInfo up_world NewDashboard ''10.0.0.5'') = Inr info_web
   \<and> fst (getPodInfo down_world NewDashboard ''10.0.0.5'') = Inl (ConnectFailed ''connection refused'')
   \<and> fst (getPodInfo
        (up_world\<lparr>client_Get := \<lambda>n url. Inr \<lparr>StatusCode = 503, Body = ''busy'', BodyErr = None\<rparr>\<rparr>)
        NewDashboard ''10.0.0.5'') = Inl (UnexpectedStatus 503)
   \<and> Error_string (UnexpectedStatus 503) = ''unexpected status code: 503''
   \<and> fst (getPodInfo
        (up_world\<lparr>client_Get :=
            \<lambda>n url. Inr \<lparr>StatusCode = 200, Body = ''{'', BodyErr = Some ''unexpected EOF''\<rparr>\<rparr>)
        NewDashboard ''10.0.0.5'') = Inl (ReadFailed ''unexpected EOF'')
   \<and> fst (getPodInfo (up_world\<lparr>json_Unmarshal := \<lambda>body. Inl ''invalid character''\<rparr>)
        NewDashboard ''10.0.0.5'') = Inl (ParseFailed ''invalid character'')"
proof -
  have digits: "Error_string (UnexpectedStatus 503) = ''unexpected status code: 503''"
    by (simp add: itoa_def nat_digits.simps)
  show ?thesis
    using digits
      getPodInfo_outcomes [of up_world NewDashboard "''10.0.0.5''" info_web]
      getPodInfo_outcomes [of down_world NewDashboard "''10.0.0.5''" _ "''connection refused''"]
      getPodInfo_outcomes [of
        "up_world\<lparr>client_Get := \<lambda>n url. Inr \<lparr>StatusCode = 503, Body = ''busy'', BodyErr = None\<rparr>\<rparr>"
        NewDashboard "''10.0.0.5''" _ _ "\<lparr>StatusCode = 503, Body = ''busy'', BodyErr = None\<rparr>"]
      getPodInfo_outcomes [of
        "up_world\<lparr>client_Get :=
            \<lambda>n url. Inr \<lparr>StatusCode = 200, Body = ''{'', BodyErr = Some ''unexpected EOF''\<rparr>\<rparr>"
        NewDashboard "''10.0.0.5''" _ "''unexpected EOF''"
        "\<lparr>StatusCode = 200, Body = ''{'', BodyErr = Some ''unexpected EOF''\<rparr>"]
      getPodInfo_outcomes [of "up_world\<lparr>json_Unmarshal := \<lambda>body. Inl ''invalid character''\<rparr>"
        NewDashboard "''10.0.0.5''" _ "''invalid character''"
        "\<lparr>StatusCode = 200, Body = ''{}'', BodyErr = None\<rparr>"]
    by (simp add: up_world_def down_world_def)
qed

text \<open>
  Claim C5, as amended. \<open>handleProxy\<close> answers a request whose method is not POST with
  405 and a body that does not decode with 400, in both cases without a network call.
  When \<^verbatim>\<open>client.Do\<close> returns an error it answers 500 with a message that carries the
  error. When \<^verbatim>\<open>client.Do\<close> returns a response with a status code from 100 to 999 it
  writes that status code and the bytes the remote body yields: the whole body,
  unchanged, when the body ends cleanly, and the bytes received before the failure
  when the body ends in an error (the status is already written, and no server error
  is reported).
\<close>

theorem handleProxy_outcomes:
  "(Method r \<noteq> ''POST'' \<longrightarrow>
      handleProxy w s r =
        (Inr \<lparr>written_StatusCode = 405, written_Body = ''Method not allowed'' @ [CHR 0x0A]\<rparr>, s))
   \<and> (Method r = ''POST'' \<and> json_Decode w (RequestBody r) = Inl e \<longrightarrow>
      handleProxy w s r =
        (Inr \<lparr>written_StatusCode = 400, written_Body = ''Invalid request body'' @ [CHR 0x0A]\<rparr>, s))
   \<and> (Method r = ''POST'' \<and> json_Decode w (RequestBody r) = Inr req
        \<and> http_NewRequest w (req_Method req) (req_URL req) = Inr proxyReq
        \<and> client_Do w proxyReq = Inl e \<longrightarrow>
      handleProxy w s r =
        (Inr \<lparr>written_StatusCode = 500,
               written_Body = ''Failed to call pod API: '' @ e @ [CHR 0x0A]\<rparr>,
         s\<lparr>wire := wire s @ [proxyReq]\<rparr>))
   \<and> (Method r = ''POST'' \<and> json_Decode w (RequestBody r) = Inr req
        \<and> http_NewRequest w (req_Method req) (req_URL req) = Inr proxyReq
        \<and> client_Do w proxyReq = Inr resp
        \<and> 100 \<le> StatusCode resp \<and> StatusCode resp \<le> 999 \<and> BodyErr resp = None \<longrightarrow>
      handleProxy w s r =
        (Inr \<lparr>written_StatusCode = StatusCode resp, written_Body = Body resp\<rparr>,
         s\<lparr>wire := wire s @ [proxyReq]\<rparr>))
   \<and> (Method r = ''POST'' \<and> json_Decode w (RequestBody r) = Inr req
        \<and> http_NewRequest w (req_Method req) (req_URL req) = Inr proxyReq
        \<and> client_Do w proxyReq = Inr resp
        \<and> 100 \<le> StatusCode resp \<and> StatusCode resp \<le> 999 \<and> BodyErr resp = Some e \<longrightarrow>
      handleProxy w s r =
        (Inr \<lparr>written_StatusCode = StatusCode resp, written_Body = Body resp\<rparr>,
         s\<lparr>wire := wire s @ [proxyReq]\<rparr>))"
  by (simp add: handleProxy_def http_Error_def Let_def)

theorem handleProxy_outcomes_witness:
  "handleProxy up_world NewDashboard \<lparr>Method = ''GET'', RequestBody = ''{}''\<rparr>
     = (Inr \<lparr>written_StatusCode = 405, written_Body = ''Method not allowed'' @ [CHR 0x0A]\<rparr>,
        NewDashboard)
   \<and> handleProxy down_world NewDashboard \<lparr>Method = ''POST'', RequestBody = ''{''\<rparr>
     = (Inr \<lparr>written_StatusCode = 400, written_Body = ''Invalid request body'' @ [CHR 0x0A]\<rparr>,
        NewDashboard)
   \<and> handleProxy (up_world\<lparr>client_Do := \<lambda>req. Inl ''context deadline exceeded''\<rparr>) NewDashboard
        \<lparr>Method = ''POST'', RequestBody = ''{}''\<rparr>
     = (Inr \<lparr>written_StatusCode = 500,
              written_Body = ''Failed to call pod API: context deadline exceeded'' @ [CHR 0x0A]\<rparr>,
        NewDashboard\<lparr>wire := [(''POST'', ''http://10.0.0.5:8080/api/probes/readiness/fail'')]\<rparr>)
   \<and> handleProxy up_world NewDashboard \<lparr>Method = ''POST'', RequestBody = ''{}''\<rparr>
     = (Inr \<lparr>written_StatusCode = 200, written_Body = ''done''\<rparr>,
        NewDashboard\<lparr>wire := [(''POST'', ''http://10.0.0.5:8080/api/probes/readiness/fail'')]\<rparr>)
   \<and> handleProxy timeout_world NewDashboard \<lparr>Method = ''POST'', RequestBody = ''{}''\<rparr>
     = (Inr \<lparr>written_StatusCode = 200, written_Body = ''{''\<rparr>,
        NewDashboard\<lparr>wire := [(''POST'', ''http://10.0.0.5:8080/api/probes/readiness/fail'')]\<rparr>)"
  using
    handleProxy_outcomes [of "\<lparr>Method = ''GET'', RequestBody = ''{}''\<rparr>" up_world NewDashboard]
    handleProxy_outcomes [of "\<lparr>Method = ''POST'', RequestBody = ''{''\<rparr>" down_world NewDashboard
      "''unexpected end of JSON input''"]
    handleProxy_outcomes [of "\<lparr>Method = ''POST'', RequestBody = ''{}''\<rparr>"
      "up_world\<lparr>client_Do := \<lambda>req. Inl ''context deadline exceeded''\<rparr>" NewDashboard
      "''context deadline exceeded''"
      "\<lparr>req_URL = ''http://10.0.0.5:8080/api/probes/readiness/fail'', req_Method = ''POST''\<rparr>"
      "(''POST'', ''http://10.0.0.5:8080/api/probes/readiness/fail'')"]
    handleProxy_outcomes [of "\<lparr>Method = ''POST'', RequestBody = ''{}''\<rparr>" up_world NewDashboard _
      "\<lparr>req_URL = ''http://10.0.0.5:8080/api/probes/readiness/fail'', req_Method = ''POST''\<rparr>"
      "(''POST'', ''http://10.0.0.5:8080/api/probes/readiness/fail'')"
      "\<lparr>StatusCode = 200, Body = ''done'', BodyErr = None\<rparr>"]
    handleProxy_outcomes [of "\<lparr>Method = ''POST'', RequestBody = ''{}''\<rparr>" timeout_world
      NewDashboard "''context deadline exceeded''"
      "\<lparr>req_URL = ''http://10.0.0.5:8080/api/probes/readiness/fail'', req_Method = ''POST''\<rparr>"
      "(''POST'', ''http://10.0.0.5:8080/api/probes/readiness/fail'')"
      "\<lparr>StatusCode = 200, Body = ''{'', BodyErr = Some ''context deadline exceeded''\<rparr>"]
  by (simp add: up_world_def down_world_def timeout_world_def NewDashboard_def)

text \<open>
  Claim C5 as the specification states it fails on two requests. When the relayed call
  times out while the body is streamed, the caller receives status 200 with the one
  byte that had arrived, not a server error. When the remote answers with status code
  7, \<^verbatim>\<open>WriteHeader\<close> panics and the caller receives no response, so neither the status
  code nor the body is copied back.
\<close>

theorem relay_failure_counterexample:
  "\<not> forwarded_as_specified timeout_world NewDashboard \<lparr>Method = ''POST'', RequestBody = ''{}''\<rparr>
   \<and> \<not> forwarded_as_specified odd_world NewDashboard \<lparr>Method = ''POST'', RequestBody = ''{}''\<rparr>"
  by (simp add: forwarded_as_specified_def handleProxy_def server_error_def Let_def
      timeout_world_def odd_world_def up_world_def)

text \<open>
  Claim C10. When the body of a POST decodes but \<^verbatim>\<open>http.NewRequest\<close> rejects the decoded
  method or URL, \<open>handleProxy\<close> answers 500 with \<^verbatim>\<open>Failed to create request\<close>, sends
  nothing and leaves the state as it was.
\<close>

theorem handleProxy_bad_target:
  assumes "Method r = ''POST''"
    and "json_Decode w (RequestBody r) = Inr req"
    and "http_NewRequest w (req_Method req) (req_URL req) = Inl e"
  shows "handleProxy w s r =
           (Inr \<lparr>written_StatusCode = 500,
                  written_Body = ''Failed to create request'' @ [CHR 0x0A]\<rparr>, s)
         \<and> pods (snd (handleProxy w s r)) = pods s
         \<and> wire (snd (handleProxy w s r)) = wire s"
  using assms by (simp add: handleProxy_def http_Error_def)

theorem handleProxy_bad_target_witness:
  "handleProxy (up_world\<lparr>http_NewRequest := \<lambda>method url. Inl ''net/http: invalid method''\<rparr>)
       NewDashboard \<lparr>Method = ''POST'', RequestBody = ''{}''\<rparr>
     = (Inr \<lparr>written_StatusCode = 500,
              written_Body = ''Failed to create request'' @ [CHR 0x0A]\<rparr>,
        NewDashboard)"
proof -
  let ?w = "up_world\<lparr>http_NewRequest := \<lambda>method url. Inl ''net/http: invalid method''\<rparr>"
  let ?r = "\<lparr>Method = ''POST'', RequestBody = ''{}''\<rparr>"
  let ?req = "\<lparr>req_URL = ''http://10.0.0.5:8080/api/probes/readiness/fail'', req_Method = ''POST''\<rparr>"
  have m: "Method ?r = ''POST''"
    by simp
  have d: "json_Decode ?w (RequestBody ?r) = Inr ?req"
    by (simp add: up_world_def)
  have n: "http_NewRequest ?w (req_Method ?req) (req_URL ?req) = Inl ''net/http: invalid method''"
    by simp
  from handleProxy_bad_target [OF m d n, of NewDashboard] show ?thesis
    by simp
qed

subsection \<open>Snapshots taken while a cycle runs\<close>

lemma steps_in_loop:
  "k \<le> length items \<Longrightarrow>
   (step w ^^ k) (Merging items cur, s) =
     (Merging (drop k items) (fst (foldl (processPod w) (cur, s) (take k items))),
      snd (foldl (processPod w) (cur, s) (take k items)))"
proof (induction k)
  case 0
  show ?case by simp
next
  case (Suc k)
  then have k: "k < length items"
    by simp
  then have "drop k items = items ! k # drop (Suc k) items"
    by (simp add: Cons_nth_drop_Suc)
  moreover from k have "take (Suc k) items = take k items @ [items ! k]"
    by (simp add: take_Suc_conv_app_nth)
  ultimately show ?case
    using Suc.IH k by (simp add: Let_def)
qed

lemma steps_idle: "(step w ^^ k) (Idle, s) = (Idle, s)"
  by (induction k) simp_all

lemma steps_past_loop:
  assumes "length items < k"
  shows "(step w ^^ k) (Merging items (\<lambda>name. False), s)
           = (Idle, updatePodStatuses w (Inr items) s)"
proof -
  from assms obtain d where k: "k = d + Suc (length items)"
    by (metis add.commute less_iff_Suc_add add_Suc_right add_Suc)
  have "(step w ^^ Suc (length items)) (Merging items (\<lambda>name. False), s)
          = (Idle, updatePodStatuses w (Inr items) s)"
    using steps_in_loop [of "length items" items w "\<lambda>name. False" s]
    by (simp add: updatePodStatuses_def Let_def)
  then show ?thesis
    unfolding k funpow_add by (simp add: steps_idle)
qed

text \<open>
  Claim C4, as amended. The loop takes the lock once for each upsert and once more for
  the pruning, so a reader can take the read lock between any two of these sections. A
  snapshot taken after \<open>k\<close> of them, with \<open>k\<close> at most the number of items, is the store
  as it was when the cycle began with the records of the first \<open>k\<close> items upserted and
  nothing pruned: a name outside the first \<open>k\<close> items holds what it held before the
  cycle, a name among them holds a whole record built in this cycle. A snapshot taken
  after the pruning is the end state of the cycle.
\<close>

theorem snapshot_during_cycle:
  "(k \<le> length items \<longrightarrow>
      observable w (Inr items) s k
        = pods (snd (foldl (processPod w) (\<lambda>name. False, s) (take k items)))
      \<and> (\<forall>name. name \<notin> pod_Name ` set (take k items) \<longrightarrow>
            observable w (Inr items) s k name = pods s name)
      \<and> (\<forall>name \<in> pod_Name ` set (take k items).
            \<exists>i<k. pod_Name (items ! i) = name
              \<and> observable w (Inr items) s k name = Some (built w (iter s + i) (items ! i))))
   \<and> (length items < k \<longrightarrow>
        observable w (Inr items) s k = snapshot (updatePodStatuses w (Inr items) s))"
proof (intro conjI impI)
  assume k: "k \<le> length items"
  show seen: "observable w (Inr items) s k
        = pods (snd (foldl (processPod w) (\<lambda>name. False, s) (take k items)))"
    using k by (simp add: observable_def snapshot_def steps_in_loop)
  show "\<forall>name. name \<notin> pod_Name ` set (take k items) \<longrightarrow>
            observable w (Inr items) s k name = pods s name"
    unfolding seen by (simp add: loop_untouched)
  show "\<forall>name \<in> pod_Name ` set (take k items).
            \<exists>i<k. pod_Name (items ! i) = name
              \<and> observable w (Inr items) s k name = Some (built w (iter s + i) (items ! i))"
  proof
    fix name
    assume "name \<in> pod_Name ` set (take k items)"
    from loop_upserted [OF this, of w "\<lambda>name. False" s] k
    show "\<exists>i<k. pod_Name (items ! i) = name
              \<and> observable w (Inr items) s k name = Some (built w (iter s + i) (items ! i))"
      unfolding seen by auto
  qed
next
  assume "length items < k"
  then show "observable w (Inr items) s k = snapshot (updatePodStatuses w (Inr items) s)"
    by (simp add: observable_def steps_past_loop)
qed

theorem snapshot_during_cycle_witness:
  "(1::nat) \<le> length [pod_pending, pod_web]
   \<and> ''old-1'' \<notin> pod_Name ` set (take 1 [pod_pending, pod_web])
   \<and> ''single'' \<in> pod_Name ` set (take 1 [pod_pending, pod_web])
   \<and> observable down_world (Inr [pod_pending, pod_web])
        (monitorPods down_world NewDashboard [Inr [pod_old]]) 1 ''old-1''
       = pods (monitorPods down_world NewDashboard [Inr [pod_old]]) ''old-1''
   \<and> observable down_world (Inr [pod_pending, pod_web])
        (monitorPods down_world NewDashboard [Inr [pod_old]]) 1 ''single''
       = Some (built down_world 1 pod_pending)
   \<and> length [pod_pending, pod_web] < (3::nat)
   \<and> observable down_world (Inr [pod_pending, pod_web])
        (monitorPods down_world NewDashboard [Inr [pod_old]]) 3
       = snapshot (updatePodStatuses down_world (Inr [pod_pending, pod_web])
                    (monitorPods down_world NewDashboard [Inr [pod_old]]))"
proof -
  let ?s = "monitorPods down_world NewDashboard [Inr [pod_old]]"
  let ?items = "[pod_pending, pod_web]"
  have it: "iter ?s = 1"
    by (simp add: eval_cycle pod_old_def down_world_def)
  have le: "(1::nat) \<le> length ?items" and less: "length ?items < (3::nat)"
    by simp_all
  have out: "''old-1'' \<notin> pod_Name ` set (take 1 ?items)"
    and inside: "''single'' \<in> pod_Name ` set (take 1 ?items)"
    by (simp_all add: pod_pending_def)
  from snapshot_during_cycle [of 1 ?items down_world ?s] le
  have kept: "\<forall>name. name \<notin> pod_Name ` set (take 1 ?items) \<longrightarrow>
            observable down_world (Inr ?items) ?s 1 name = pods ?s name"
    and new: "\<forall>name \<in> pod_Name ` set (take 1 ?items).
            \<exists>i<1. pod_Name (?items ! i) = name
              \<and> observable down_world (Inr ?items) ?s 1 name
                  = Some (built down_world (iter ?s + i) (?items ! i))"
    by blast+
  from kept out have a: "observable down_world (Inr ?items) ?s 1 ''old-1'' = pods ?s ''old-1''"
    by blast
  from new inside obtain i where "i < 1"
    "observable down_world (Inr ?items) ?s 1 ''single''
       = Some (built down_world (iter ?s + i) (?items ! i))"
    by blast
  then have b: "observable down_world (Inr ?items) ?s 1 ''single''
       = Some (built down_world 1 pod_pending)"
    unfolding it by simp
  from snapshot_during_cycle [of 3 ?items down_world ?s] less
  have c: "observable down_world (Inr ?items) ?s 3
       = snapshot (updatePodStatuses down_world (Inr ?items) ?s)"
    by simp
  from le less out inside a b c show ?thesis
    by blast
qed

text \<open>
  Claim C4 as the specification states it fails. After a cycle that stored \<^verbatim>\<open>old-1\<close>, a
  cycle that discovers \<^verbatim>\<open>single\<close> and \<^verbatim>\<open>web-7f8c9d-abcde\<close> is one locked section in: the
  snapshot holds \<^verbatim>\<open>old-1\<close> (not yet pruned) together with \<^verbatim>\<open>single\<close> (already upserted).
  It is neither the store before the cycle, nor the initial store, nor the end state of
  either cycle.
\<close>

theorem torn_snapshot_counterexample:
  "\<not> untorn down_world [Inr [pod_old]] (Inr [pod_pending, pod_web]) 1"
proof
  define s where "s = monitorPods down_world NewDashboard [Inr [pod_old]]"
  define seen where "seen = observable down_world (Inr [pod_pending, pod_web]) s 1"
  define run where "run = (\<lambda>n. snapshot (monitorPods down_world NewDashboard
                  (take n ([Inr [pod_old]] @ [Inr [pod_pending, pod_web]]))))"
  have old: "seen ''old-1'' \<noteq> None"
    by (simp add: seen_def s_def observable_def snapshot_def eval_cycle pod_old_def
        pod_pending_def pod_web_def down_world_def)
  have new: "seen ''single'' \<noteq> None"
    by (simp add: seen_def s_def observable_def snapshot_def eval_cycle pod_old_def
        pod_pending_def pod_web_def down_world_def)
  have before: "snapshot s ''single'' = None"
    by (simp add: s_def snapshot_def eval_cycle pod_old_def down_world_def)
  have run0: "run 0 ''single'' = None"
    by (simp add: run_def snapshot_def NewDashboard_def)
  have run1: "run 1 ''single'' = None"
    by (simp add: run_def snapshot_def eval_cycle pod_old_def down_world_def)
  have run2: "run 2 ''old-1'' = None"
    by (simp add: run_def snapshot_def eval_cycle pod_old_def pod_pending_def pod_web_def
        down_world_def)
  assume "untorn down_world [Inr [pod_old]] (Inr [pod_pending, pod_web]) 1"
  then have "seen = snapshot s \<or> (\<exists>n. n \<le> Suc (length [Inr [pod_old] :: string + Pod list]) \<and> seen = run n)"
    unfolding untorn_def Let_def seen_def s_def run_def .
  then show False
  proof (elim disjE exE conjE)
    assume "seen = snapshot s"
    with new before show False
      by simp
  next
    fix n
    assume "n \<le> Suc (length [Inr [pod_old] :: string + Pod list])" and seen: "seen = run n"
    then have "n = 0 \<or> n = 1 \<or> n = 2"
      by auto
    with seen old new run0 run1 run2 show False
      by auto
  qed
qed

subsection \<open>Isolation of fetch failures and the time stamps\<close>

lemma built_eq:
  "built w n pod =
     (let base = \<lparr>Name = pod_Name pod, IP = pod_PodIP pod, Node = pod_NodeName pod,
                   Status = pod_Phase pod, Info = None, Error = [],
                   LastCheck = time_Now w n, ReplicaSetID = replicaSetID (pod_Name pod)\<rparr>
      in if pod_Phase pod = ''Running'' \<and> pod_PodIP pod \<noteq> []
         then (case fst (getPodInfo w \<lparr>pods = Map.empty, iter = n, wire = []\<rparr> (pod_PodIP pod)) of
                 Inl err \<Rightarrow> base\<lparr>Error := Error_string err\<rparr>
               | Inr info \<Rightarrow> base\<lparr>Info := Some info\<rparr>)
         else base)"
  by (cases "getPodInfo w \<lparr>pods = Map.empty, iter = n, wire = []\<rparr> (pod_PodIP pod)")
     (simp add: built_def buildStatus_def Let_def split: sum.splits)

lemma getPodInfo_cong:
  assumes "client_Get w2 (iter s) = client_Get w1 (iter s)"
    and "json_Unmarshal w2 = json_Unmarshal w1"
  shows "fst (getPodInfo w2 s ip) = fst (getPodInfo w1 s ip)"
  using assms by (simp add: getPodInfo_def Let_def split: sum.splits option.splits)

lemma built_cong:
  assumes "time_Now w2 n = time_Now w1 n" and "client_Get w2 n = client_Get w1 n"
    and "json_Unmarshal w2 = json_Unmarshal w1"
  shows "built w2 n pod = built w1 n pod"
proof -
  have "fst (getPodInfo w2 \<lparr>pods = Map.empty, iter = n, wire = []\<rparr> (pod_PodIP pod))
          = fst (getPodInfo w1 \<lparr>pods = Map.empty, iter = n, wire = []\<rparr> (pod_PodIP pod))"
    by (rule getPodInfo_cong) (simp_all add: assms)
  with assms(1) show ?thesis
    by (simp add: built_eq Let_def cong: if_cong)
qed

lemma loop_agree:
  assumes "\<forall>i<length items. pod_Name (items ! i) \<noteq> skipped \<longrightarrow>
             built w2 (iter s + i) (items ! i) = built w1 (iter s + i) (items ! i)"
    and "name \<noteq> skipped"
  shows "pods (snd (foldl (processPod w2) (cur, s) items)) name
           = pods (snd (foldl (processPod w1) (cur, s) items)) name"
  using assms(1)
proof (induction items rule: rev_induct)
  case Nil
  show ?case by simp
next
  case (snoc pod items)
  obtain c1 s1 where st1: "foldl (processPod w1) (cur, s) items = (c1, s1)"
    by (cases "foldl (processPod w1) (cur, s) items")
  obtain c2 s2 where st2: "foldl (processPod w2) (cur, s) items = (c2, s2)"
    by (cases "foldl (processPod w2) (cur, s) items")
  have it: "iter s1 = iter s + length items" "iter s2 = iter s + length items"
    using loop_iter [of w1 cur s items] loop_iter [of w2 cur s items] st1 st2 by simp_all
  have "\<forall>i<length items. pod_Name (items ! i) \<noteq> skipped \<longrightarrow>
             built w2 (iter s + i) (items ! i) = built w1 (iter s + i) (items ! i)"
  proof (intro allI impI)
    fix i
    assume "i < length items" "pod_Name (items ! i) \<noteq> skipped"
    with snoc.prems [rule_format, of i] show
      "built w2 (iter s + i) (items ! i) = built w1 (iter s + i) (items ! i)"
      by (simp add: nth_append)
  qed
  with snoc.IH st1 st2 have same: "pods s2 name = pods s1 name"
    by simp
  have last: "pod_Name pod \<noteq> skipped \<Longrightarrow>
      built w2 (iter s + length items) pod = built w1 (iter s + length items) pod"
    using snoc.prems [rule_format, of "length items"] by simp
  show ?case
    using st1 st2 it same last assms(2) by (auto simp: processPod_eq)
qed

text \<open>
  Claim C8. Let two assignments of fetch outcomes differ only in the outcome of the
  request made for the item at position \<open>a\<close> of the discovery result (instance A).
  Then the record built in the cycle for the item at every other position is the same
  under both, the store after the cycle holds the same record under both for every
  identity other than A's, and the same identities are stored: what happens to A's
  fetch neither alters nor prevents the record of another instance.
\<close>

theorem fetch_isolation:
  assumes "a < length items"
    and "\<forall>i url. i \<noteq> iter s + a \<longrightarrow> g2 i url = g1 i url"
  shows "(\<forall>b<length items. b \<noteq> a \<longrightarrow>
            built (w\<lparr>client_Get := g2\<rparr>) (iter s + b) (items ! b)
              = built (w\<lparr>client_Get := g1\<rparr>) (iter s + b) (items ! b))
         \<and> (\<forall>name. name \<noteq> pod_Name (items ! a) \<longrightarrow>
              pods (updatePodStatuses (w\<lparr>client_Get := g2\<rparr>) (Inr items) s) name
                = pods (updatePodStatuses (w\<lparr>client_Get := g1\<rparr>) (Inr items) s) name)
         \<and> dom (pods (updatePodStatuses (w\<lparr>client_Get := g2\<rparr>) (Inr items) s))
              = dom (pods (updatePodStatuses (w\<lparr>client_Get := g1\<rparr>) (Inr items) s))"
proof -
  let ?w1 = "w\<lparr>client_Get := g1\<rparr>" and ?w2 = "w\<lparr>client_Get := g2\<rparr>"
  have same: "built ?w2 (iter s + b) pod = built ?w1 (iter s + b) pod" if "b \<noteq> a" for b pod
  proof (rule built_cong)
    from that assms(2) have "g2 (iter s + b) url = g1 (iter s + b) url" for url
      by simp
    then show "client_Get ?w2 (iter s + b) = client_Get ?w1 (iter s + b)"
      by (simp add: fun_eq_iff)
  qed simp_all
  then have records: "\<forall>b<length items. b \<noteq> a \<longrightarrow>
            built ?w2 (iter s + b) (items ! b) = built ?w1 (iter s + b) (items ! b)"
    by blast
  have "\<forall>i<length items. pod_Name (items ! i) \<noteq> pod_Name (items ! a) \<longrightarrow>
          built ?w2 (iter s + i) (items ! i) = built ?w1 (iter s + i) (items ! i)"
  proof (intro allI impI)
    fix i
    assume "pod_Name (items ! i) \<noteq> pod_Name (items ! a)"
    then have "i \<noteq> a"
      by auto
    then show "built ?w2 (iter s + i) (items ! i) = built ?w1 (iter s + i) (items ! i)"
      by (rule same)
  qed
  then have stored: "\<forall>name. name \<noteq> pod_Name (items ! a) \<longrightarrow>
              pods (updatePodStatuses ?w2 (Inr items) s) name
                = pods (updatePodStatuses ?w1 (Inr items) s) name"
    by (simp add: cycle_pods loop_agree)
  have "dom (pods (updatePodStatuses ?w2 (Inr items) s))
          = dom (pods (updatePodStatuses ?w1 (Inr items) s))"
    by (simp only: cycle_dom)
  with records stored show ?thesis
    by blast
qed

theorem fetch_isolation_witness:
  "(0::nat) < length [pod_web, pod_api]
   \<and> ''api-5d4c-x1'' \<noteq> pod_Name ([pod_web, pod_api] ! 0)
   \<and> pods (updatePodStatuses
         (up_world\<lparr>client_Get :=
            \<lambda>i url. if i = 0 then Inl ''connection refused'' else client_Get up_world i url\<rparr>)
         (Inr [pod_web, pod_api]) NewDashboard) ''web-7f8c9d-abcde''
       = Some \<lparr>Name = ''web-7f8c9d-abcde'', IP = ''10.0.0.5'', Node = ''node-1'',
               Status = ''Running'', Info = None,
               Error = ''failed to connect: connection refused'', LastCheck = 0,
               ReplicaSetID = ''7f8c9d''\<rparr>
   \<and> pods (updatePodStatuses
         (up_world\<lparr>client_Get :=
            \<lambda>i url. if i = 0 then Inl ''connection refused'' else client_Get up_world i url\<rparr>)
         (Inr [pod_web, pod_api]) NewDashboard) ''api-5d4c-x1''
       = pods (updatePodStatuses (up_world\<lparr>client_Get := client_Get up_world\<rparr>)
           (Inr [pod_web, pod_api]) NewDashboard) ''api-5d4c-x1''
   \<and> pods (updatePodStatuses (up_world\<lparr>client_Get := client_Get up_world\<rparr>)
           (Inr [pod_web, pod_api]) NewDashboard) ''api-5d4c-x1''
       = Some \<lparr>Name = ''api-5d4c-x1'', IP = ''10.0.0.6'', Node = ''node-2'',
               Status = ''Running'', Info = Some info_web, Error = '''', LastCheck = 1,
               ReplicaSetID = ''5d4c''\<rparr>"
proof -
  let ?g1 = "client_Get up_world"
  let ?g2 = "\<lambda>i url. if i = 0 then Inl ''connection refused'' else client_Get up_world i url"
  have len: "(0::nat) < length [pod_web, pod_api]"
    by simp
  have only: "\<forall>i url. i \<noteq> iter NewDashboard + 0 \<longrightarrow> ?g2 i url = ?g1 i url"
    by (simp add: NewDashboard_def)
  have other: "''api-5d4c-x1'' \<noteq> pod_Name ([pod_web, pod_api] ! 0)"
    by (simp add: pod_web_def)
  have failed: "pods (updatePodStatuses (up_world\<lparr>client_Get := ?g2\<rparr>)
         (Inr [pod_web, pod_api]) NewDashboard) ''web-7f8c9d-abcde''
       = Some \<lparr>Name = ''web-7f8c9d-abcde'', IP = ''10.0.0.5'', Node = ''node-1'',
               Status = ''Running'', Info = None,
               Error = ''failed to connect: connection refused'', LastCheck = 0,
               ReplicaSetID = ''7f8c9d''\<rparr>"
    by (simp add: eval_cycle pod_web_def pod_api_def up_world_def)
  have fine: "pods (updatePodStatuses (up_world\<lparr>client_Get := ?g1\<rparr>)
           (Inr [pod_web, pod_api]) NewDashboard) ''api-5d4c-x1''
       = Some \<lparr>Name = ''api-5d4c-x1'', IP = ''10.0.0.6'', Node = ''node-2'',
               Status = ''Running'', Info = Some info_web, Error = '''', LastCheck = 1,
               ReplicaSetID = ''5d4c''\<rparr>"
    by (simp add: eval_cycle pod_web_def pod_api_def up_world_def)
  from fetch_isolation [OF len only, of up_world] other
  have "pods (updatePodStatuses (up_world\<lparr>client_Get := ?g2\<rparr>)
           (Inr [pod_web, pod_api]) NewDashboard) ''api-5d4c-x1''
       = pods (updatePodStatuses (up_world\<lparr>client_Get := ?g1\<rparr>)
           (Inr [pod_web, pod_api]) NewDashboard) ''api-5d4c-x1''"
    by blast
  with len other failed fine show ?thesis
    by blast
qed

lemma cycle_iter:
  "iter (updatePodStatuses w listed s) =
     (case listed of Inl err \<Rightarrow> iter s | Inr items \<Rightarrow> iter s + length items)"
  by (simp add: updatePodStatuses_def Let_def prune_def loop_iter split: sum.splits)

lemma cycle_stamp:
  assumes "pods (updatePodStatuses w listed s) name = Some r"
  shows "pods s name = Some r
         \<or> (\<exists>j. iter s \<le> j \<and> j < iter (updatePodStatuses w listed s)
                \<and> LastCheck r = time_Now w j)"
proof (cases listed)
  case (Inl err)
  with assms show ?thesis
    by (simp add: updatePodStatuses_def)
next
  case (Inr items)
  with cycle_record_built [of w items s name r] assms
  obtain i where "i < length items" "r = built w (iter s + i) (items ! i)"
    by blast
  then have "iter s \<le> iter s + i \<and> iter s + i < iter (updatePodStatuses w listed s)
       \<and> LastCheck r = time_Now w (iter s + i)"
    by (simp add: cycle_iter Inr built_fields)
  then show ?thesis
    by blast
qed

lemma run_iter: "iter s \<le> iter (monitorPods w s ticks)"
proof (induction ticks arbitrary: s)
  case Nil
  show ?case by simp
next
  case (Cons listed ticks)
  have "iter s \<le> iter (updatePodStatuses w listed s)"
    by (simp add: cycle_iter split: sum.splits)
  with Cons [of "updatePodStatuses w listed s"] show ?case
    by simp
qed

lemma run_stamp:
  "pods (monitorPods w s ticks) name = Some r \<Longrightarrow>
   pods s name = Some r
   \<or> (\<exists>j. iter s \<le> j \<and> j < iter (monitorPods w s ticks) \<and> LastCheck r = time_Now w j)"
proof (induction ticks arbitrary: s)
  case Nil
  then show ?case by simp
next
  case (Cons listed ticks)
  let ?s = "updatePodStatuses w listed s"
  from Cons.prems have "pods (monitorPods w ?s ticks) name = Some r"
    by simp
  from Cons.IH [OF this] consider "pods ?s name = Some r"
    | j where "iter ?s \<le> j" "j < iter (monitorPods w ?s ticks)" "LastCheck r = time_Now w j"
    by blast
  then show ?case
  proof cases
    case 1
    from cycle_stamp [OF this] consider "pods s name = Some r"
      | j where "iter s \<le> j" "j < iter ?s" "LastCheck r = time_Now w j"
      by blast
    then show ?thesis
    proof cases
      case 1
      then show ?thesis by blast
    next
      case 2
      with run_iter [of ?s w ticks] have "iter s \<le> j \<and> j < iter (monitorPods w s (listed # ticks))
          \<and> LastCheck r = time_Now w j"
        by simp
      then show ?thesis by blast
    qed
  next
    case 2
    have "iter s \<le> iter ?s"
      by (simp add: cycle_iter split: sum.splits)
    with 2 have "iter s \<le> j \<and> j < iter (monitorPods w s (listed # ticks))
          \<and> LastCheck r = time_Now w j"
      by simp
    then show ?thesis by blast
  qed
qed

text \<open>
  Claim C9, as amended. If successive readings of the clock do not decrease, take any
  state reached from the initial one by a sequence of cycles and any state reached from
  it by further cycles. If an identity holds a record in both, the \<open>LastCheck\<close> of the
  later record is no earlier than that of the earlier one.
\<close>

theorem LastCheck_monotone:
  assumes clock: "\<forall>i j. i \<le> j \<longrightarrow> time_Now w i \<le> time_Now w j"
    and earlier: "pods (monitorPods w NewDashboard ticks) name = Some r"
    and later: "pods (monitorPods w (monitorPods w NewDashboard ticks) further) name = Some r'"
  shows "LastCheck r \<le> LastCheck r'"
proof -
  let ?s = "monitorPods w NewDashboard ticks"
  from run_stamp [OF earlier] obtain i where i: "i < iter ?s" "LastCheck r = time_Now w i"
    by (auto simp: NewDashboard_def)
  from run_stamp [OF later] consider "pods ?s name = Some r'"
    | j where "iter ?s \<le> j" "LastCheck r' = time_Now w j"
    by blast
  then show ?thesis
  proof cases
    case 1
    with earlier show ?thesis
      by simp
  next
    case 2
    with i have "i \<le> j"
      by simp
    with clock i 2 show ?thesis
      by simp
  qed
qed

theorem LastCheck_monotone_witness:
  "pods (monitorPods down_world NewDashboard [Inr [pod_old]]) ''old-1''
     = Some \<lparr>Name = ''old-1'', IP = '''', Node = ''node-2'', Status = ''Pending'', Info = None,
             Error = '''', LastCheck = 0, ReplicaSetID = ''old''\<rparr>
   \<and> pods (monitorPods down_world (monitorPods down_world NewDashboard [Inr [pod_old]])
        [Inl ''forbidden'', Inr [pod_pending, pod_old]]) ''old-1''
     = Some \<lparr>Name = ''old-1'', IP = '''', Node = ''node-2'', Status = ''Pending'', Info = None,
             Error = '''', LastCheck = 2, ReplicaSetID = ''old''\<rparr>
   \<and> LastCheck \<lparr>Name = ''old-1'', IP = '''', Node = ''node-2'', Status = ''Pending'', Info = None,
             Error = '''', LastCheck = 0, ReplicaSetID = ''old''\<rparr>
       \<le> LastCheck \<lparr>Name = ''old-1'', IP = '''', Node = ''node-2'', Status = ''Pending'',
             Info = None, Error = '''', LastCheck = 2, ReplicaSetID = ''old''\<rparr>"
proof -
  have clock: "\<forall>i j. i \<le> j \<longrightarrow> time_Now down_world i \<le> time_Now down_world j"
    by (simp add: down_world_def)
  have earlier: "pods (monitorPods down_world NewDashboard [Inr [pod_old]]) ''old-1''
     = Some \<lparr>Name = ''old-1'', IP = '''', Node = ''node-2'', Status = ''Pending'', Info = None,
             Error = '''', LastCheck = 0, ReplicaSetID = ''old''\<rparr>"
    by (simp add: eval_cycle pod_old_def down_world_def)
  have later: "pods (monitorPods down_world (monitorPods down_world NewDashboard [Inr [pod_old]])
        [Inl ''forbidden'', Inr [pod_pending, pod_old]]) ''old-1''
     = Some \<lparr>Name = ''old-1'', IP = '''', Node = ''node-2'', Status = ''Pending'', Info = None,
             Error = '''', LastCheck = 2, ReplicaSetID = ''old''\<rparr>"
    by (simp add: eval_cycle pod_old_def pod_pending_def down_world_def)
  from LastCheck_monotone [OF clock earlier later] earlier later show ?thesis
    by blast
qed

text \<open>
  Claim C9 as the specification states it fails when the clock steps back between two
  cycles: the record of \<^verbatim>\<open>old-1\<close> is stamped 0 by the first cycle and -2 by the second.
\<close>

theorem stepping_clock_counterexample:
  "\<not> stamps_never_decrease back_world [Inr [pod_old]] [Inr [pod_pending, pod_old]]"
proof
  assume "stamps_never_decrease back_world [Inr [pod_old]] [Inr [pod_pending, pod_old]]"
  moreover have "pods (monitorPods back_world NewDashboard [Inr [pod_old]]) ''old-1''
     = Some \<lparr>Name = ''old-1'', IP = '''', Node = ''node-2'', Status = ''Pending'', Info = None,
             Error = '''', LastCheck = 0, ReplicaSetID = ''old''\<rparr>"
    by (simp add: eval_cycle pod_old_def back_world_def down_world_def)
  moreover have "pods (monitorPods back_world (monitorPods back_world NewDashboard [Inr [pod_old]])
        [Inr [pod_pending, pod_old]]) ''old-1''
     = Some \<lparr>Name = ''old-1'', IP = '''', Node = ''node-2'', Status = ''Pending'', Info = None,
             Error = '''', LastCheck = - 2, ReplicaSetID = ''old''\<rparr>"
    by (simp add: eval_cycle pod_old_def pod_pending_def back_world_def down_world_def)
  ultimately have "LastCheck \<lparr>Name = ''old-1'', IP = '''', Node = ''node-2'', Status = ''Pending'',
             Info = None, Error = '''', LastCheck = 0, ReplicaSetID = ''old''\<rparr>
       \<le> LastCheck \<lparr>Name = ''old-1'', IP = '''', Node = ''node-2'', Status = ''Pending'',
             Info = None, Error = '''', LastCheck = - 2, ReplicaSetID = ''old''\<rparr>"
    unfolding stamps_never_decrease_def by blast
  then show False
    by simp
qed

end
